theory Spec2Isabelle
  imports Complex_Main "HOL-Library.Sublist"
begin

section \<open>The extraction handler of src/server.ts\<close>

text \<open>
  The development embeds the \<^verbatim>\<open>startExtraction\<close> handler of \<^verbatim>\<open>src/server.ts\<close>
  (lines 85 to 214): the guard on the uploaded file, the loop over the requested
  modules with its per-module \<^verbatim>\<open>try\<close>/\<^verbatim>\<open>catch\<close>, and the events it sends over the
  socket. Everything the handler calls but does not define (the file system, the five
  extractor modules, the clock) is a parameter of the model, gathered in the record
  \<open>env\<close>.
\<close>

subsection \<open>JavaScript values\<close>

text \<open>
  A JavaScript number is a real number or one of the three special values. Rounding and
  the sign of zero are not modelled; the special values are, because the handler divides
  by the length of an array.
\<close>

datatype jsnum = Fin real | PosInf | NegInf | NaN

text \<open>The quotient \<^verbatim>\<open>a / b\<close> of two finite numbers.\<close>

definition js_div :: "real \<Rightarrow> real \<Rightarrow> jsnum" where
  "js_div a b =
     (if b = 0 then (if a = 0 then NaN else if 0 < a then PosInf else NegInf)
      else Fin (a / b))"

datatype jsval =
    JUndefined
  | JNull
  | JBool bool
  | JNum jsnum
  | JStr string
  | JArr "jsval list"
  | JObj "(string \<times> jsval) list"

text \<open>What \<^verbatim>\<open>if (v)\<close> tests: every value is truthy but \<^verbatim>\<open>undefined\<close>, \<^verbatim>\<open>null\<close>,
  \<^verbatim>\<open>false\<close>, \<^verbatim>\<open>0\<close>, \<^verbatim>\<open>NaN\<close> and the empty string.\<close>

fun truthy :: "jsval \<Rightarrow> bool" where
  "truthy JUndefined = False"
| "truthy JNull = False"
| "truthy (JBool b) = b"
| "truthy (JNum (Fin x)) = (x \<noteq> 0)"
| "truthy (JNum NaN) = False"
| "truthy (JNum PosInf) = True"
| "truthy (JNum NegInf) = True"
| "truthy (JStr s) = (s \<noteq> [])"
| "truthy (JArr xs) = True"
| "truthy (JObj fs) = True"

text \<open>A thrown value: an \<^verbatim>\<open>Error\<close> object with its message, or anything else.\<close>

datatype thrown = ErrorObject string | NotAnError

text \<open>The decimal digits of a number, as a template literal prints it.\<close>

definition digit_char :: "nat \<Rightarrow> char" where
  "digit_char k = ''0123456789'' ! k"

fun string_of_nat :: "nat \<Rightarrow> string" where
  "string_of_nat n =
     (if 10 \<le> n then string_of_nat (n div 10) @ [digit_char (n mod 10)]
      else [digit_char n])"

declare string_of_nat.simps [simp del]

subsection \<open>Results of the extractor modules\<close>

text \<open>
  The types of \<^verbatim>\<open>./types/index.js\<close> and the extractor modules are not part of the
  source at hand; the model gives each result the shape the handler relies on. A
  citation has a numeric \<^verbatim>\<open>quality_score\<close>; the harmonized outcomes have an array
  \<^verbatim>\<open>timepoints\<close>; the tables are an array; the other properties are kept as values.
\<close>

record citation =
  quality_score :: real
  citation_props :: "(string \<times> jsval) list"

record harmonized =
  timepoints :: "jsval list"
  harmonized_props :: "(string \<times> jsval) list"

record citations_metadata =
  total_extracted :: nat
  valid_citations :: nat
  average_quality :: jsnum
  duplicates_removed :: nat

text \<open>The value of a property of the accumulated result.\<close>

datatype fieldval =
    Value jsval
  | HarmonizedVal harmonized
  | CitationsVal "citation list"
  | MetadataVal citations_metadata

fun truthy_field :: "fieldval \<Rightarrow> bool" where
  "truthy_field (Value v) = truthy v"
| "truthy_field (HarmonizedVal h) = True"
| "truthy_field (CitationsVal cs) = True"
| "truthy_field (MetadataVal md) = True"

text \<open>
  The accumulated result \<^verbatim>\<open>result\<close> is an object: its properties in the order in which
  they were first set.
\<close>

type_synonym extraction_data = "(string \<times> fieldval) list"

text \<open>\<^verbatim>\<open>obj.key\<close>: the value of the property, \<^verbatim>\<open>undefined\<close> when there is none.\<close>

definition get_field :: "extraction_data \<Rightarrow> string \<Rightarrow> fieldval" where
  "get_field obj k = (case map_of obj k of None \<Rightarrow> Value JUndefined | Some v \<Rightarrow> v)"

text \<open>\<^verbatim>\<open>key in obj\<close>: the object has the property, whatever its value.\<close>

definition has_field :: "extraction_data \<Rightarrow> string \<Rightarrow> bool" where
  "has_field obj k = (map_of obj k \<noteq> None)"

text \<open>\<^verbatim>\<open>obj.key = v\<close>: an existing property keeps its place, a new one goes last.\<close>

fun set_field :: "string \<Rightarrow> fieldval \<Rightarrow> extraction_data \<Rightarrow> extraction_data" where
  "set_field k v [] = [(k, v)]"
| "set_field k v (p # ps) = (if fst p = k then (k, v) # ps else p # set_field k v ps)"

text \<open>\<^verbatim>\<open>Object.assign(obj, src)\<close>: every property of the source is set on the target,
  in the source's order.\<close>

definition object_assign :: "extraction_data \<Rightarrow> (string \<times> jsval) list \<Rightarrow> extraction_data" where
  "object_assign obj src = fold (\<lambda>(k, v) acc. set_field k (Value v) acc) src obj"

subsection \<open>Events sent over the socket\<close>

datatype payload =
    FullPdfData "(string \<times> jsval) list"
  | TablesData "jsval list" nat
  | ImagingData jsval
  | HarmonizedData harmonized
  | CitationsData nat "citation list"

text \<open>
  One constructor for each event name the handler emits, with the properties of the
  event's object in the order of the source.
\<close>

datatype event =
    ErrorEvent string
  | Progress string string real
  | ModuleStart string string
  | ModuleComplete string payload string
  | ModuleError string string
  | ExtractionComplete bool extraction_data "string list" string

subsection \<open>The environment of the handler\<close>

text \<open>The capabilities the handler awaits, with the argument of each call.\<close>

datatype call =
    ExtractFullPdf string
  | ExtractTablesAndFigures string
  | ExtractImagingMetrics string
  | HarmonizeOutcomes fieldval
  | ExtractCitations string

text \<open>
  The file system answers for the path of the uploaded file (\<^verbatim>\<open>existsSync\<close>, and
  \<^verbatim>\<open>readFileSync\<close> followed by the base64 encoding, which may throw). An extractor
  either throws or resolves to its result; its first argument is the number of modules
  the run has been through when it is called, so that two calls of one extractor need
  not agree. \<open>now_iso\<close> is the time stamp of the final event.
\<close>

record env =
  existsSync :: "string \<Rightarrow> bool"
  readFileSync :: "string \<Rightarrow> thrown + string"
  extractFullPdf :: "nat \<Rightarrow> string \<Rightarrow> thrown + (string \<times> jsval) list"
  extractTablesAndFigures :: "nat \<Rightarrow> string \<Rightarrow> thrown + jsval list"
  extractImagingMetrics :: "nat \<Rightarrow> string \<Rightarrow> thrown + jsval"
  harmonizeOutcomes :: "nat \<Rightarrow> fieldval \<Rightarrow> thrown + harmonized"
  extractCitations :: "nat \<Rightarrow> string \<Rightarrow> thrown + citation list"
  now_iso :: string

text \<open>The command \<^verbatim>\<open>startExtraction\<close> carries a file name and the requested modules.\<close>

record request =
  filename :: string
  modules :: "string list"

text \<open>
  The state of one run: the events emitted so far, the accumulated \<^verbatim>\<open>result\<close>, and
  the extractor calls made so far.
\<close>

record run_state =
  emitted :: "event list"
  result :: extraction_data
  invoked :: "call list"

definition emit :: "event \<Rightarrow> run_state \<Rightarrow> run_state" where
  "emit e st = st\<lparr>emitted := emitted st @ [e]\<rparr>"

definition invoke :: "call \<Rightarrow> run_state \<Rightarrow> run_state" where
  "invoke c st = st\<lparr>invoked := invoked st @ [c]\<rparr>"

subsection \<open>One module\<close>

text \<open>The \<^verbatim>\<open>catch (moduleError)\<close> block of lines 185 to 190.\<close>

definition error_message :: "thrown \<Rightarrow> string" where
  "error_message moduleError =
     (case moduleError of ErrorObject msg \<Rightarrow> msg | NotAnError \<Rightarrow> ''Unknown error'')"

definition catch_module :: "string \<Rightarrow> thrown \<Rightarrow> run_state \<Rightarrow> run_state" where
  "catch_module moduleName moduleError st =
     emit (ModuleError moduleName (error_message moduleError)) st"

text \<open>The derived \<^verbatim>\<open>citations_metadata\<close> of lines 172 to 177.\<close>

definition citations_metadata_of :: "citation list \<Rightarrow> citations_metadata" where
  "citations_metadata_of citations =
     \<lparr> total_extracted = length citations,
       valid_citations = length (filter (\<lambda>c. quality_score c > 7 / 10) citations),
       average_quality =
         js_div (foldl (\<lambda>sum c. sum + quality_score c) 0 citations) (real (length citations)),
       duplicates_removed = 0 \<rparr>"

text \<open>
  The \<^verbatim>\<open>switch (moduleName)\<close> inside the \<^verbatim>\<open>try\<close> of lines 120 to 190. A module name
  that matches no case falls through the switch: nothing is emitted and nothing is
  called. An extractor that throws leaves the \<^verbatim>\<open>try\<close> block at the \<^verbatim>\<open>await\<close>, before
  the statements that follow it.
\<close>

definition run_module :: "env \<Rightarrow> nat \<Rightarrow> string \<Rightarrow> string \<Rightarrow> run_state \<Rightarrow> run_state" where
  "run_module e i pdfBase64 moduleName st =
     (if moduleName = ''full-pdf'' then
        (let st1 = invoke (ExtractFullPdf pdfBase64)
                     (emit (ModuleStart ''full-pdf'' ''Full-PDF Extractor'') st)
         in case extractFullPdf e i pdfBase64 of
              Inl moduleError \<Rightarrow> catch_module moduleName moduleError st1
            | Inr fullPdfResult \<Rightarrow>
                emit (ModuleComplete ''full-pdf'' (FullPdfData fullPdfResult)
                        ''Extracted study metadata, methods, results, and discussion'')
                  (st1\<lparr>result := object_assign (result st1) fullPdfResult\<rparr>))
      else if moduleName = ''tables'' then
        (let st1 = invoke (ExtractTablesAndFigures pdfBase64)
                     (emit (ModuleStart ''tables'' ''Table & Figure Extractor'') st)
         in case extractTablesAndFigures e i pdfBase64 of
              Inl moduleError \<Rightarrow> catch_module moduleName moduleError st1
            | Inr tables \<Rightarrow>
                emit (ModuleComplete ''tables'' (TablesData tables (length tables))
                        (''Extracted '' @ string_of_nat (length tables) @ '' tables''))
                  (st1\<lparr>result := set_field ''tables'' (Value (JArr tables)) (result st1)\<rparr>))
      else if moduleName = ''imaging'' then
        (let st1 = invoke (ExtractImagingMetrics pdfBase64)
                     (emit (ModuleStart ''imaging'' ''Imaging Metrics Extractor'') st)
         in case extractImagingMetrics e i pdfBase64 of
              Inl moduleError \<Rightarrow> catch_module moduleName moduleError st1
            | Inr metrics \<Rightarrow>
                emit (ModuleComplete ''imaging'' (ImagingData metrics)
                        ''Extracted neuroimaging metrics'')
                  (st1\<lparr>result := set_field ''imaging'' (Value metrics) (result st1)\<rparr>))
      else if moduleName = ''harmonizer'' then
        (let st1 = emit (ModuleStart ''harmonizer'' ''Outcome Harmonizer'') st
         in if truthy_field (get_field (result st1) ''outcomes'') then
              (let st2 = invoke (HarmonizeOutcomes (get_field (result st1) ''outcomes'')) st1
               in case harmonizeOutcomes e i (get_field (result st1) ''outcomes'') of
                    Inl moduleError \<Rightarrow> catch_module moduleName moduleError st2
                  | Inr h \<Rightarrow>
                      emit (ModuleComplete ''harmonizer'' (HarmonizedData h)
                              (''Harmonized outcomes to '' @ string_of_nat (length (timepoints h))
                                 @ '' timepoints''))
                        (st2\<lparr>result := set_field ''harmonized_outcomes'' (HarmonizedVal h)
                                          (result st2)\<rparr>))
            else st1)
      else if moduleName = ''citations'' then
        (let st1 = invoke (ExtractCitations pdfBase64)
                     (emit (ModuleStart ''citations'' ''Citation Extractor'') st)
         in case extractCitations e i pdfBase64 of
              Inl moduleError \<Rightarrow> catch_module moduleName moduleError st1
            | Inr citations \<Rightarrow>
                emit (ModuleComplete ''citations''
                        (CitationsData (length citations) (take 5 citations))
                        (''Extracted '' @ string_of_nat (length citations)
                           @ '' citations (92.1% accuracy)''))
                  (st1\<lparr>result :=
                          set_field ''citations_metadata''
                            (MetadataVal (citations_metadata_of citations))
                            (set_field ''citations'' (CitationsVal citations) (result st1))\<rparr>))
      else st)"

subsection \<open>The loop over the modules and the handler\<close>

text \<open>
  The \<^verbatim>\<open>for\<close> loop of lines 111 to 193: \<open>totalModules\<close> is the length of the whole
  list, \<open>completedModules\<close> the number of modules the loop has been through.
\<close>

fun process_modules ::
  "env \<Rightarrow> string \<Rightarrow> nat \<Rightarrow> nat \<Rightarrow> string list \<Rightarrow> run_state \<Rightarrow> run_state" where
  "process_modules e pdfBase64 totalModules completedModules [] st = st"
| "process_modules e pdfBase64 totalModules completedModules (moduleName # rest) st =
     (let basePercent = 10 + (real completedModules / real totalModules) * 80;
          st1 = emit (Progress moduleName (''Running '' @ moduleName @ '' extractor...'')
                        basePercent) st;
          st2 = run_module e completedModules pdfBase64 moduleName st1
      in process_modules e pdfBase64 totalModules (completedModules + 1) rest st2)"

definition initial_state :: run_state where
  "initial_state = \<lparr> emitted = [], result = [], invoked = [] \<rparr>"

text \<open>The two events after the loop, lines 196 to 207.\<close>

definition finish :: "env \<Rightarrow> request \<Rightarrow> run_state \<Rightarrow> run_state" where
  "finish e d st =
     emit (ExtractionComplete True (result st) (modules d) (now_iso e))
       (emit (Progress ''complete'' ''Extraction complete!'' 100) st)"

text \<open>
  The handler, lines 85 to 214. The environment's file functions take the file name of
  the request, which stands for the path \<^verbatim>\<open>join(uploadsDir, filename)\<close>.
\<close>

definition startExtraction :: "env \<Rightarrow> request \<Rightarrow> run_state" where
  "startExtraction e d =
     (if \<not> existsSync e (filename d) then emit (ErrorEvent ''File not found'') initial_state
      else
        (let st0 = emit (Progress ''reading'' ''Reading PDF file...'' 5) initial_state
         in case readFileSync e (filename d) of
              Inl err \<Rightarrow>
                emit (ErrorEvent (case err of ErrorObject msg \<Rightarrow> msg
                                  | NotAnError \<Rightarrow> ''Extraction failed'')) st0
            | Inr pdfBase64 \<Rightarrow>
                finish e d
                  (process_modules e pdfBase64 (length (modules d)) 0 (modules d) st0)))"

subsection \<open>Reading an event list\<close>



fun is_progress :: "event \<Rightarrow> bool" where
  "is_progress (Progress step msg percent) = True"
| "is_progress ev = False"

fun is_module_start :: "event \<Rightarrow> bool" where
  "is_module_start (ModuleStart m n) = True"
| "is_module_start ev = False"

fun is_module_complete :: "event \<Rightarrow> bool" where
  "is_module_complete (ModuleComplete m p msg) = True"
| "is_module_complete ev = False"

fun is_module_error :: "event \<Rightarrow> bool" where
  "is_module_error (ModuleError m msg) = True"
| "is_module_error ev = False"

fun is_extraction_complete :: "event \<Rightarrow> bool" where
  "is_extraction_complete (ExtractionComplete ok dat ms ts) = True"
| "is_extraction_complete ev = False"

fun is_error_event :: "event \<Rightarrow> bool" where
  "is_error_event (ErrorEvent msg) = True"
| "is_error_event ev = False"


definition count_events :: "(event \<Rightarrow> bool) \<Rightarrow> event list \<Rightarrow> nat" where
  "count_events P evs = length (filter P evs)"

subsection \<open>Positions in a run\<close>

text \<open>The module names the \<^verbatim>\<open>switch\<close> has a case for.\<close>

definition known_module :: "string \<Rightarrow> bool" where
  "known_module m =
     (m \<in> set [''full-pdf'', ''tables'', ''imaging'', ''harmonizer'', ''citations''])"

text \<open>The state when the loop is entered: the first progress event has been sent.\<close>

definition reading_state :: run_state where
  "reading_state = emit (Progress ''reading'' ''Reading PDF file...'' 5) initial_state"

text \<open>
  The state of the run of request \<open>d\<close> on the file content \<open>pdf\<close> when the loop has
  been through the first \<open>k\<close> requested modules, and the percentage sent when it enters
  module number \<open>k\<close>.
\<close>

definition state_after :: "env \<Rightarrow> request \<Rightarrow> string \<Rightarrow> nat \<Rightarrow> run_state" where
  "state_after e d pdf k =
     process_modules e pdf (length (modules d)) 0 (take k (modules d)) reading_state"

definition module_percent :: "request \<Rightarrow> nat \<Rightarrow> real" where
  "module_percent d k = 10 + (real k / real (length (modules d))) * 80"

definition running_message :: "string \<Rightarrow> string" where
  "running_message m = ''Running '' @ m @ '' extractor...''"




text \<open>
  Module number \<open>k\<close> of the run is named \<^verbatim>\<open>harmonizer\<close> and is entered while
  \<^verbatim>\<open>result.outcomes\<close> is not truthy; and the number of such modules in the run.
\<close>

definition noop_at :: "env \<Rightarrow> request \<Rightarrow> string \<Rightarrow> nat \<Rightarrow> bool" where
  "noop_at e d pdf k =
     (modules d ! k = ''harmonizer'' \<and>
      \<not> truthy_field (get_field (result (state_after e d pdf k)) ''outcomes''))"

definition harmonizer_noops :: "env \<Rightarrow> request \<Rightarrow> string \<Rightarrow> nat" where
  "harmonizer_noops e d pdf = length (filter (noop_at e d pdf) [0..<length (modules d)])"

subsection \<open>Several runs on one socket\<close>

text \<open>
  The handler is an \<^verbatim>\<open>async\<close> function, registered once for each socket (line 85). A
  call of it runs until it reaches an \<^verbatim>\<open>await\<close>, where it gives way to the other
  handlers of the process, and it goes on when the awaited promise has settled. The
  handler awaits the extractors and nothing else, and in each case of the switch the
  module-start event is emitted before the \<^verbatim>\<open>await\<close> and everything else after it.
  The server keeps no variable that says whether a socket has a run under way.
\<close>

text \<open>The state of a run with no event emitted yet.\<close>

definition local_state :: "extraction_data \<Rightarrow> run_state" where
  "local_state r = \<lparr> emitted = [], result = r, invoked = [] \<rparr>"

text \<open>
  What a module does before its \<^verbatim>\<open>await\<close>: the event it emits and the extractor call
  it awaits, if it reaches one.
\<close>

definition module_begin :: "string \<Rightarrow> string \<Rightarrow> extraction_data \<Rightarrow> event list \<times> call option" where
  "module_begin pdfBase64 moduleName r =
     (if moduleName = ''full-pdf'' then
        ([ModuleStart ''full-pdf'' ''Full-PDF Extractor''], Some (ExtractFullPdf pdfBase64))
      else if moduleName = ''tables'' then
        ([ModuleStart ''tables'' ''Table & Figure Extractor''],
         Some (ExtractTablesAndFigures pdfBase64))
      else if moduleName = ''imaging'' then
        ([ModuleStart ''imaging'' ''Imaging Metrics Extractor''],
         Some (ExtractImagingMetrics pdfBase64))
      else if moduleName = ''harmonizer'' then
        ([ModuleStart ''harmonizer'' ''Outcome Harmonizer''],
         if truthy_field (get_field r ''outcomes'')
         then Some (HarmonizeOutcomes (get_field r ''outcomes'')) else None)
      else if moduleName = ''citations'' then
        ([ModuleStart ''citations'' ''Citation Extractor''], Some (ExtractCitations pdfBase64))
      else ([], None))"

text \<open>
  What a module does after its \<^verbatim>\<open>await\<close>: all of the module but its first event, the
  module-start event.
\<close>

definition module_end ::
  "env \<Rightarrow> nat \<Rightarrow> string \<Rightarrow> string \<Rightarrow> extraction_data \<Rightarrow> event list \<times> extraction_data" where
  "module_end e i pdfBase64 moduleName r =
     (let st = run_module e i pdfBase64 moduleName (local_state r)
      in (tl (emitted st), result st))"

text \<open>
  A run that waits for an extractor: its request, the file content, the number of the
  module that awaits, and the accumulated result.
\<close>

record suspended =
  s_request :: request
  s_pdf :: string
  s_index :: nat
  s_result :: extraction_data

text \<open>
  A run goes from the top of module number \<open>k\<close> to its next \<^verbatim>\<open>await\<close>, or to its end:
  the events emitted on the way, and the suspended run if it stopped at an \<^verbatim>\<open>await\<close>.
\<close>

fun advance ::
  "env \<Rightarrow> request \<Rightarrow> string \<Rightarrow> nat \<Rightarrow> string list \<Rightarrow> extraction_data
     \<Rightarrow> event list \<times> suspended option" where
  "advance e d pdf k [] r = (emitted (finish e d (local_state r)), None)"
| "advance e d pdf k (moduleName # rest) r =
     (let progress = Progress moduleName (''Running '' @ moduleName @ '' extractor...'')
                       (10 + (real k / real (length (modules d))) * 80)
      in case module_begin pdf moduleName r of
           (evs, None) \<Rightarrow>
             (let (evs', s) = advance e d pdf (k + 1) rest r in (progress # evs @ evs', s))
         | (evs, Some c) \<Rightarrow>
             (progress # evs,
              Some \<lparr> s_request = d, s_pdf = pdf, s_index = k, s_result = r \<rparr>))"

text \<open>The awaited promise of a suspended run settles, and the run goes on.\<close>

definition resume :: "env \<Rightarrow> suspended \<Rightarrow> event list \<times> suspended option" where
  "resume e s =
     (let d = s_request s; k = s_index s;
          (evs, r) = module_end e k (s_pdf s) (modules d ! k) (s_result s);
          (evs', s') = advance e d (s_pdf s) (k + 1) (drop (k + 1) (modules d)) r
      in (evs @ evs', s'))"

text \<open>
  One socket: the events emitted into it so far, and the runs that wait for an
  extractor.
\<close>

record session =
  channel :: "event list"
  in_flight :: "suspended list"

definition idle :: session where
  "idle = \<lparr> channel = [], in_flight = [] \<rparr>"

text \<open>The socket receives a \<^verbatim>\<open>startExtraction\<close> command.\<close>

definition on_start :: "env \<Rightarrow> request \<Rightarrow> session \<Rightarrow> session" where
  "on_start e d s =
     (if \<not> existsSync e (filename d) then
        s\<lparr>channel := channel s @ [ErrorEvent ''File not found'']\<rparr>
      else
        (case readFileSync e (filename d) of
           Inl err \<Rightarrow>
             s\<lparr>channel := channel s @
                  [Progress ''reading'' ''Reading PDF file...'' 5,
                   ErrorEvent (case err of ErrorObject msg \<Rightarrow> msg
                               | NotAnError \<Rightarrow> ''Extraction failed'')]\<rparr>
         | Inr pdf \<Rightarrow>
             (let (evs, susp) = advance e d pdf 0 (modules d) []
              in s\<lparr>channel := channel s @ Progress ''reading'' ''Reading PDF file...'' 5 # evs,
                   in_flight := in_flight s @ (case susp of None \<Rightarrow> [] | Some x \<Rightarrow> [x])\<rparr>)))"

text \<open>The promise awaited by the run at place \<open>j\<close> of the waiting runs settles.\<close>

definition on_settle :: "env \<Rightarrow> nat \<Rightarrow> session \<Rightarrow> session" where
  "on_settle e j s =
     (if j < length (in_flight s) then
        (let (evs, susp) = resume e (in_flight s ! j)
         in s\<lparr>channel := channel s @ evs,
              in_flight := take j (in_flight s)
                 @ (case susp of None \<Rightarrow> [] | Some x \<Rightarrow> [x])
                 @ drop (Suc j) (in_flight s)\<rparr>)
      else s)"

text \<open>What happens on a socket, in the order in which it happens.\<close>

datatype message = Start request | Settled nat

fun deliver :: "env \<Rightarrow> message \<Rightarrow> session \<Rightarrow> session" where
  "deliver e (Start d) s = on_start e d s"
| "deliver e (Settled j) s = on_settle e j s"

definition session_run :: "env \<Rightarrow> message list \<Rightarrow> session \<Rightarrow> session" where
  "session_run e msgs s = fold (deliver e) msgs s"

text \<open>
  One run on a socket of its own: the command, and then as many settled promises as
  the request has modules (a settlement with no run waiting changes nothing).
\<close>

definition solo_run :: "env \<Rightarrow> request \<Rightarrow> session" where
  "solo_run e d = (on_settle e 0 ^^ length (modules d)) (on_start e d idle)"

text \<open>A run driven on its own for at most \<open>n\<close> settlements.\<close>

fun drive :: "env \<Rightarrow> nat \<Rightarrow> event list \<times> suspended option \<Rightarrow> event list \<times> suspended option" where
  "drive e 0 x = x"
| "drive e (Suc n) (evs, None) = (evs, None)"
| "drive e (Suc n) (evs, Some s) = (let (evs', s') = resume e s in drive e n (evs @ evs', s'))"

text \<open>The socket of a single run, from the events before it and where the run stands.\<close>

definition session_of :: "event list \<Rightarrow> event list \<times> suspended option \<Rightarrow> session" where
  "session_of ch x =
     \<lparr> channel = ch @ fst x, in_flight = (case snd x of None \<Rightarrow> [] | Some s \<Rightarrow> [s]) \<rparr>"

subsection \<open>A sample environment\<close>

text \<open>
  An environment to run the handler in: the upload directory holds \<^verbatim>\<open>paper.pdf\<close>;
  the empty file name resolves to the directory itself, which exists and cannot be
  read as a file. The table extractor throws; the others resolve.
\<close>

definition sample_citations :: "citation list" where
  "sample_citations =
     [\<lparr> quality_score = 9 / 10, citation_props = [(''title'', JStr ''A'')] \<rparr>,
      \<lparr> quality_score = 7 / 10, citation_props = [(''title'', JStr ''B'')] \<rparr>,
      \<lparr> quality_score = 8 / 10, citation_props = [(''title'', JStr ''C'')] \<rparr>,
      \<lparr> quality_score = 1 / 2, citation_props = [(''title'', JStr ''D'')] \<rparr>,
      \<lparr> quality_score = 1, citation_props = [(''title'', JStr ''E'')] \<rparr>,
      \<lparr> quality_score = 3 / 10, citation_props = [(''title'', JStr ''F'')] \<rparr>]"

definition sample_harmonized :: harmonized where
  "sample_harmonized =
     \<lparr> timepoints = [JStr ''30d'', JStr ''90d''], harmonized_props = [] \<rparr>"

definition sample_env :: env where
  "sample_env =
     \<lparr> existsSync = (\<lambda>f. f = ''paper.pdf'' \<or> f = []),
       readFileSync =
         (\<lambda>f. if f = ''paper.pdf'' then Inr ''JVBERi0=''
              else Inl (ErrorObject ''EISDIR: illegal operation on a directory, read'')),
       extractFullPdf =
         (\<lambda>i pdf. Inr [(''study_id'', JStr ''S1''),
                        (''outcomes'', JObj [(''mortality'', JNum (Fin 2))])]),
       extractTablesAndFigures = (\<lambda>i pdf. Inl (ErrorObject ''request timed out'')),
       extractImagingMetrics = (\<lambda>i pdf. Inr (JObj [(''volume'', JNum (Fin 12))])),
       harmonizeOutcomes = (\<lambda>i v. Inr sample_harmonized),
       extractCitations = (\<lambda>i pdf. Inr sample_citations),
       now_iso = ''2025-01-01T00:00:00.000Z'' \<rparr>"

definition sample_request :: request where
  "sample_request =
     \<lparr> filename = ''paper.pdf'', modules = [''tables'', ''bogus'', ''citations''] \<rparr>"

definition bogus_request :: request where
  "bogus_request = \<lparr> filename = ''paper.pdf'', modules = [''bogus''] \<rparr>"

definition harmonizer_request :: request where
  "harmonizer_request = \<lparr> filename = ''paper.pdf'', modules = [''full-pdf'', ''harmonizer''] \<rparr>"

definition lone_harmonizer_request :: request where
  "lone_harmonizer_request = \<lparr> filename = ''paper.pdf'', modules = [''harmonizer''] \<rparr>"

definition mixed_request :: request where
  "mixed_request =
     \<lparr> filename = ''paper.pdf'',
       modules = [''harmonizer'', ''full-pdf'', ''harmonizer'', ''tables'', ''bogus''] \<rparr>"

definition citations_request :: request where
  "citations_request = \<lparr> filename = ''paper.pdf'', modules = [''citations''] \<rparr>"

text \<open>The full-text extractor reports \<^verbatim>\<open>outcomes: null\<close>.\<close>

definition null_outcomes_env :: env where
  "null_outcomes_env = sample_env\<lparr>extractFullPdf := \<lambda>i pdf. Inr [(''outcomes'', JNull)]\<rparr>"

text \<open>The citation extractor finds no citation.\<close>

definition no_citations_env :: env where
  "no_citations_env = sample_env\<lparr>extractCitations := \<lambda>i pdf. Inr []\<rparr>"

definition tables_request :: request where
  "tables_request = \<lparr> filename = ''paper.pdf'', modules = [''tables''] \<rparr>"


section \<open>Properties\<close>

subsection \<open>The loop, one module at a time\<close>


lemma process_modules_append:
  "process_modules e pdf n c (xs @ ys) st =
     process_modules e pdf n (c + length xs) ys (process_modules e pdf n c xs st)"
  by (induction xs arbitrary: c st) (simp_all add: Let_def)

lemma state_after_0: "state_after e d pdf 0 = reading_state"
  by (simp add: state_after_def)

lemma state_after_Suc:
  assumes "k < length (modules d)"
  shows "state_after e d pdf (Suc k) =
     run_module e k pdf (modules d ! k)
       (emit (Progress (modules d ! k) (running_message (modules d ! k))
          (module_percent d k)) (state_after e d pdf k))"
  using assms
  by (simp add: state_after_def take_Suc_conv_app_nth process_modules_append Let_def
      module_percent_def running_message_def)

lemma startExtraction_loaded:
  assumes "existsSync e (filename d)" "readFileSync e (filename d) = Inr pdf"
  shows "startExtraction e d = finish e d (state_after e d pdf (length (modules d)))"
  using assms by (simp add: startExtraction_def state_after_def reading_state_def)

text \<open>
  From any position on, the run of a readable file is the loop over the remaining
  modules followed by the two final events.
\<close>

lemma run_continues:
  assumes "existsSync e (filename d)" "readFileSync e (filename d) = Inr pdf"
    and "k \<le> length (modules d)"
  shows "startExtraction e d =
     finish e d (process_modules e pdf (length (modules d)) k (drop k (modules d))
                   (state_after e d pdf k))"
proof -
  have "state_after e d pdf (length (modules d)) =
      process_modules e pdf (length (modules d)) 0 (take k (modules d) @ drop k (modules d))
        reading_state"
    by (simp add: state_after_def)
  also have "\<dots> = process_modules e pdf (length (modules d)) k (drop k (modules d))
      (state_after e d pdf k)"
    using assms(3) by (simp only: process_modules_append state_after_def) simp
  finally show ?thesis
    using assms(1,2) by (simp add: startExtraction_loaded)
qed

lemma run_ends:
  assumes "existsSync e (filename d)" "readFileSync e (filename d) = Inr pdf"
  shows "last (emitted (startExtraction e d)) =
     ExtractionComplete True (result (startExtraction e d)) (modules d) (now_iso e)"
  using assms by (simp add: startExtraction_loaded finish_def emit_def)

subsection \<open>The cases of the switch\<close>

lemma run_module_unknown: "\<not> known_module m \<Longrightarrow> run_module e i pdf m st = st"
  by (simp add: known_module_def run_module_def)

lemma run_module_full_pdf:
  "run_module e i pdf ''full-pdf'' st =
     (case extractFullPdf e i pdf of
        Inl err \<Rightarrow>
          st\<lparr>emitted := emitted st @ [ModuleStart ''full-pdf'' ''Full-PDF Extractor'',
                   ModuleError ''full-pdf'' (error_message err)],
             invoked := invoked st @ [ExtractFullPdf pdf]\<rparr>
      | Inr r \<Rightarrow>
          st\<lparr>emitted := emitted st @ [ModuleStart ''full-pdf'' ''Full-PDF Extractor'',
                   ModuleComplete ''full-pdf'' (FullPdfData r)
                     ''Extracted study metadata, methods, results, and discussion''],
             result := object_assign (result st) r,
             invoked := invoked st @ [ExtractFullPdf pdf]\<rparr>)"
  by (simp add: run_module_def Let_def emit_def invoke_def catch_module_def split: sum.splits)

lemma run_module_tables:
  "run_module e i pdf ''tables'' st =
     (case extractTablesAndFigures e i pdf of
        Inl err \<Rightarrow>
          st\<lparr>emitted := emitted st @ [ModuleStart ''tables'' ''Table & Figure Extractor'',
                   ModuleError ''tables'' (error_message err)],
             invoked := invoked st @ [ExtractTablesAndFigures pdf]\<rparr>
      | Inr ts \<Rightarrow>
          st\<lparr>emitted := emitted st @ [ModuleStart ''tables'' ''Table & Figure Extractor'',
                   ModuleComplete ''tables'' (TablesData ts (length ts))
                     (''Extracted '' @ string_of_nat (length ts) @ '' tables'')],
             result := set_field ''tables'' (Value (JArr ts)) (result st),
             invoked := invoked st @ [ExtractTablesAndFigures pdf]\<rparr>)"
  by (simp add: run_module_def Let_def emit_def invoke_def catch_module_def split: sum.splits)

lemma run_module_imaging:
  "run_module e i pdf ''imaging'' st =
     (case extractImagingMetrics e i pdf of
        Inl err \<Rightarrow>
          st\<lparr>emitted := emitted st @ [ModuleStart ''imaging'' ''Imaging Metrics Extractor'',
                   ModuleError ''imaging'' (error_message err)],
             invoked := invoked st @ [ExtractImagingMetrics pdf]\<rparr>
      | Inr metrics \<Rightarrow>
          st\<lparr>emitted := emitted st @ [ModuleStart ''imaging'' ''Imaging Metrics Extractor'',
                   ModuleComplete ''imaging'' (ImagingData metrics)
                     ''Extracted neuroimaging metrics''],
             result := set_field ''imaging'' (Value metrics) (result st),
             invoked := invoked st @ [ExtractImagingMetrics pdf]\<rparr>)"
  by (simp add: run_module_def Let_def emit_def invoke_def catch_module_def split: sum.splits)

lemma run_module_harmonizer:
  "run_module e i pdf ''harmonizer'' st =
     (if truthy_field (get_field (result st) ''outcomes'') then
        (case harmonizeOutcomes e i (get_field (result st) ''outcomes'') of
           Inl err \<Rightarrow>
             st\<lparr>emitted := emitted st @ [ModuleStart ''harmonizer'' ''Outcome Harmonizer'',
                      ModuleError ''harmonizer'' (error_message err)],
                invoked := invoked st @ [HarmonizeOutcomes (get_field (result st) ''outcomes'')]\<rparr>
         | Inr h \<Rightarrow>
             st\<lparr>emitted := emitted st @ [ModuleStart ''harmonizer'' ''Outcome Harmonizer'',
                      ModuleComplete ''harmonizer'' (HarmonizedData h)
                        (''Harmonized outcomes to '' @ string_of_nat (length (timepoints h))
                           @ '' timepoints'')],
                result := set_field ''harmonized_outcomes'' (HarmonizedVal h) (result st),
                invoked := invoked st @ [HarmonizeOutcomes (get_field (result st) ''outcomes'')]\<rparr>)
      else st\<lparr>emitted := emitted st @ [ModuleStart ''harmonizer'' ''Outcome Harmonizer'']\<rparr>)"
  by (simp add: run_module_def Let_def emit_def invoke_def catch_module_def split: sum.splits)

lemma run_module_citations:
  "run_module e i pdf ''citations'' st =
     (case extractCitations e i pdf of
        Inl err \<Rightarrow>
          st\<lparr>emitted := emitted st @ [ModuleStart ''citations'' ''Citation Extractor'',
                   ModuleError ''citations'' (error_message err)],
             invoked := invoked st @ [ExtractCitations pdf]\<rparr>
      | Inr cs \<Rightarrow>
          st\<lparr>emitted := emitted st @ [ModuleStart ''citations'' ''Citation Extractor'',
                   ModuleComplete ''citations'' (CitationsData (length cs) (take 5 cs))
                     (''Extracted '' @ string_of_nat (length cs)
                        @ '' citations (92.1% accuracy)'')],
             result := set_field ''citations_metadata'' (MetadataVal (citations_metadata_of cs))
                         (set_field ''citations'' (CitationsVal cs) (result st)),
             invoked := invoked st @ [ExtractCitations pdf]\<rparr>)"
  by (simp add: run_module_def Let_def emit_def invoke_def catch_module_def split: sum.splits)

lemmas run_module_known =
  run_module_full_pdf run_module_tables run_module_imaging run_module_harmonizer
  run_module_citations

lemma module_cases:
  obtains "m = ''full-pdf''" | "m = ''tables''" | "m = ''imaging''" | "m = ''harmonizer''"
  | "m = ''citations''" | "\<not> known_module m"
  unfolding known_module_def by auto


lemma invoked_run_module:
  "length (invoked (run_module e i pdf m st)) =
     length (invoked st) +
       (if known_module m \<and>
           \<not> (m = ''harmonizer'' \<and> \<not> truthy_field (get_field (result st) ''outcomes''))
        then 1 else 0)"
  by (cases m rule: module_cases)
    (simp_all add: run_module_known run_module_unknown known_module_def split: sum.splits)

lemma citations_step:
  assumes "k < length (modules d)" and "modules d ! k = ''citations''"
    and "extractCitations e k pdf = Inr cs"
  shows "state_after e d pdf (Suc k) =
     (state_after e d pdf k)
       \<lparr>emitted := emitted (state_after e d pdf k) @
          [Progress ''citations'' (running_message ''citations'') (module_percent d k),
           ModuleStart ''citations'' ''Citation Extractor'',
           ModuleComplete ''citations'' (CitationsData (length cs) (take 5 cs))
             (''Extracted '' @ string_of_nat (length cs) @ '' citations (92.1% accuracy)'')],
        result := set_field ''citations_metadata'' (MetadataVal (citations_metadata_of cs))
                    (set_field ''citations'' (CitationsVal cs) (result (state_after e d pdf k))),
        invoked := invoked (state_after e d pdf k) @ [ExtractCitations pdf]\<rparr>"
  using assms state_after_Suc [of k d e pdf]
  by (simp add: run_module_citations) (simp add: emit_def)

subsection \<open>Properties of the accumulated object\<close>

lemma map_of_set_field: "map_of (set_field k v r) = (map_of r)(k \<mapsto> v)"
  by (induction r) auto

lemma get_field_set_field:
  "get_field (set_field k v r) k' = (if k' = k then v else get_field r k')"
  by (simp add: get_field_def map_of_set_field)

lemma has_field_set_field:
  "has_field (set_field k v r) k' = (k' = k \<or> has_field r k')"
  by (simp add: has_field_def map_of_set_field)

lemma absent_not_truthy: "\<not> has_field r k \<Longrightarrow> \<not> truthy_field (get_field r k)"
  by (simp add: has_field_def get_field_def)

subsection \<open>Running the handler on the sample requests\<close>

lemmas module_eval =
  Let_def run_module_known run_module_unknown known_module_def
  emit_def initial_state_def error_message_def

lemmas run_eval = startExtraction_def finish_def module_eval

lemmas state_eval = state_after_def reading_state_def module_eval

lemma string_of_nat_samples:
  "string_of_nat 1234 = ''1234'' \<and> string_of_nat 0 = ''0'' \<and> string_of_nat 6 = ''6''"
  by (simp add: string_of_nat.simps digit_char_def)

lemma sample_request_loaded:
  "existsSync sample_env (filename sample_request)"
  "readFileSync sample_env (filename sample_request) = Inr ''JVBERi0=''"
  "modules sample_request = [''tables'', ''bogus'', ''citations'']"
  "now_iso sample_env = ''2025-01-01T00:00:00.000Z''"
  by (simp_all add: sample_env_def sample_request_def)

lemma sample_request_state_2:
  "state_after sample_env sample_request ''JVBERi0='' 2 =
     \<lparr>emitted =
        [Progress ''reading'' ''Reading PDF file...'' 5,
         Progress ''tables'' ''Running tables extractor...'' 10,
         ModuleStart ''tables'' ''Table & Figure Extractor'',
         ModuleError ''tables'' ''request timed out'',
         Progress ''bogus'' ''Running bogus extractor...'' (110 / 3)],
      result = [], invoked = [ExtractTablesAndFigures ''JVBERi0='']\<rparr>"
  by (simp add: state_eval sample_request_loaded(3) sample_env_def numeral_2_eq_2)

lemma sample_citations_call:
  "2 < length (modules sample_request)"
  "modules sample_request ! 2 = ''citations''"
  "extractCitations sample_env 2 ''JVBERi0='' = Inr sample_citations"
  by (simp_all add: sample_request_loaded(3) sample_env_def)

lemma sample_citations_metadata:
  "citations_metadata_of sample_citations =
     \<lparr> total_extracted = 6, valid_citations = 3, average_quality = Fin (7 / 10),
       duplicates_removed = 0 \<rparr>"
  by (simp add: citations_metadata_of_def sample_citations_def js_div_def)

lemma harmonizer_request_loaded:
  "existsSync sample_env (filename harmonizer_request)"
  "readFileSync sample_env (filename harmonizer_request) = Inr ''JVBERi0=''"
  "modules harmonizer_request = [''full-pdf'', ''harmonizer'']"
  by (simp_all add: sample_env_def harmonizer_request_def)

lemma harmonizer_request_state_1:
  "state_after sample_env harmonizer_request ''JVBERi0='' (Suc 0) =
     \<lparr>emitted =
        [Progress ''reading'' ''Reading PDF file...'' 5,
         Progress ''full-pdf'' ''Running full-pdf extractor...'' 10,
         ModuleStart ''full-pdf'' ''Full-PDF Extractor'',
         ModuleComplete ''full-pdf''
           (FullPdfData [(''study_id'', JStr ''S1''),
                         (''outcomes'', JObj [(''mortality'', JNum (Fin 2))])])
           ''Extracted study metadata, methods, results, and discussion''],
      result = [(''study_id'', Value (JStr ''S1'')),
                (''outcomes'', Value (JObj [(''mortality'', JNum (Fin 2))]))],
      invoked = [ExtractFullPdf ''JVBERi0='']\<rparr>"
  by (simp add: state_eval harmonizer_request_loaded(3) object_assign_def sample_env_def)

lemma lone_harmonizer_request_loaded:
  "existsSync sample_env (filename lone_harmonizer_request)"
  "readFileSync sample_env (filename lone_harmonizer_request) = Inr ''JVBERi0=''"
  "modules lone_harmonizer_request = [''harmonizer'']"
  by (simp_all add: sample_env_def lone_harmonizer_request_def)

lemma mixed_request_loaded:
  "existsSync sample_env (filename mixed_request)"
  "readFileSync sample_env (filename mixed_request) = Inr ''JVBERi0=''"
  by (simp_all add: sample_env_def mixed_request_def)

lemma mixed_request_events:
  "emitted (startExtraction sample_env mixed_request) =
     [Progress ''reading'' ''Reading PDF file...'' 5,
      Progress ''harmonizer'' ''Running harmonizer extractor...'' 10,
      ModuleStart ''harmonizer'' ''Outcome Harmonizer'',
      Progress ''full-pdf'' ''Running full-pdf extractor...'' 26,
      ModuleStart ''full-pdf'' ''Full-PDF Extractor'',
      ModuleComplete ''full-pdf''
        (FullPdfData [(''study_id'', JStr ''S1''),
                      (''outcomes'', JObj [(''mortality'', JNum (Fin 2))])])
        ''Extracted study metadata, methods, results, and discussion'',
      Progress ''harmonizer'' ''Running harmonizer extractor...'' 42,
      ModuleStart ''harmonizer'' ''Outcome Harmonizer'',
      ModuleComplete ''harmonizer'' (HarmonizedData sample_harmonized)
        ''Harmonized outcomes to 2 timepoints'',
      Progress ''tables'' ''Running tables extractor...'' 58,
      ModuleStart ''tables'' ''Table & Figure Extractor'',
      ModuleError ''tables'' ''request timed out'',
      Progress ''bogus'' ''Running bogus extractor...'' 74,
      Progress ''complete'' ''Extraction complete!'' 100,
      ExtractionComplete True
        [(''study_id'', Value (JStr ''S1'')),
         (''outcomes'', Value (JObj [(''mortality'', JNum (Fin 2))])),
         (''harmonized_outcomes'', HarmonizedVal sample_harmonized)]
        [''harmonizer'', ''full-pdf'', ''harmonizer'', ''tables'', ''bogus'']
        ''2025-01-01T00:00:00.000Z'']"
  by (simp add: run_eval sample_env_def mixed_request_def get_field_def object_assign_def
      error_message_def sample_harmonized_def string_of_nat.simps digit_char_def)

subsection \<open>The quality of the citations\<close>

lemma foldl_quality_sum:
  "foldl (\<lambda>sum c. sum + quality_score c) a cs = a + sum_list (map quality_score cs)"
  by (induction cs arbitrary: a) simp_all

lemma average_quality_mean:
  assumes "cs \<noteq> []"
  shows "average_quality (citations_metadata_of cs) =
     Fin (sum_list (map quality_score cs) / real (length cs))"
  using assms by (simp add: citations_metadata_of_def js_div_def foldl_quality_sum)

lemma average_quality_empty: "average_quality (citations_metadata_of []) = NaN"
  by (simp add: citations_metadata_of_def js_div_def)

text \<open>
  C1. The average quality is to be the mean of the quality scores, and 0, never NaN,
  when there is no citation. The handler divides the sum of the scores by the number of
  citations without a test for the empty array (line 175): for a non-empty array this is
  the mean (\<open>average_quality_mean\<close>), for the empty array it is \<^verbatim>\<open>0 / 0\<close>. The run
  of the citation extractor on a file in which it finds no citation stores NaN as the
  average quality, not 0.
\<close>

theorem empty_citations_average_nan:
  "result (startExtraction no_citations_env citations_request) =
     [(''citations'', CitationsVal []),
      (''citations_metadata'',
       MetadataVal \<lparr> total_extracted = 0, valid_citations = 0, average_quality = NaN,
                     duplicates_removed = 0 \<rparr>)]
   \<and> average_quality (citations_metadata_of []) = NaN"
  by (simp add: run_eval no_citations_env_def sample_env_def citations_request_def
      citations_metadata_of_def js_div_def)

subsection \<open>Counting the module events\<close>

lemma count_start_run_module:
  "count_events is_module_start (emitted (run_module e i pdf m st)) =
     count_events is_module_start (emitted st) + (if known_module m then 1 else 0)"
  by (cases m rule: module_cases)
    (simp_all add: run_module_known run_module_unknown count_events_def known_module_def
      split: sum.splits)

lemma count_done_run_module:
  "count_events is_module_complete (emitted (run_module e i pdf m st))
     + count_events is_module_error (emitted (run_module e i pdf m st)) =
   count_events is_module_complete (emitted st) + count_events is_module_error (emitted st)
     + (length (invoked (run_module e i pdf m st)) - length (invoked st))"
  by (cases m rule: module_cases)
    (simp_all add: run_module_known run_module_unknown count_events_def
      split: sum.splits)

lemma counts_state_after:
  "k \<le> length (modules d) \<Longrightarrow>
     count_events is_module_start (emitted (state_after e d pdf k)) =
       length (filter known_module (take k (modules d)))
     \<and> count_events is_module_complete (emitted (state_after e d pdf k))
         + count_events is_module_error (emitted (state_after e d pdf k)) =
       length (invoked (state_after e d pdf k))
     \<and> count_events is_module_start (emitted (state_after e d pdf k)) =
       length (invoked (state_after e d pdf k))
         + length (filter (noop_at e d pdf) [0..<k])"
proof (induction k)
  case 0
  show ?case
    by (simp add: state_after_0 reading_state_def emit_def initial_state_def count_events_def)
next
  case (Suc k)
  let ?m = "modules d ! k"
  let ?st = "emit (Progress ?m (running_message ?m) (module_percent d k)) (state_after e d pdf k)"
  have k: "k < length (modules d)"
    using Suc.prems by simp
  have s: "state_after e d pdf (Suc k) = run_module e k pdf ?m ?st"
    using k by (rule state_after_Suc)
  have st: "count_events is_module_start (emitted ?st) =
        count_events is_module_start (emitted (state_after e d pdf k))"
      "count_events is_module_complete (emitted ?st) =
        count_events is_module_complete (emitted (state_after e d pdf k))"
      "count_events is_module_error (emitted ?st) =
        count_events is_module_error (emitted (state_after e d pdf k))"
      "invoked ?st = invoked (state_after e d pdf k)"
      "result ?st = result (state_after e d pdf k)"
    by (simp_all add: emit_def count_events_def)
  have ih: "count_events is_module_start (emitted (state_after e d pdf k)) =
       length (filter known_module (take k (modules d)))"
     "count_events is_module_complete (emitted (state_after e d pdf k))
         + count_events is_module_error (emitted (state_after e d pdf k)) =
       length (invoked (state_after e d pdf k))"
     "count_events is_module_start (emitted (state_after e d pdf k)) =
       length (invoked (state_after e d pdf k))
         + length (filter (noop_at e d pdf) [0..<k])"
    using Suc.IH k by simp_all
  have a: "count_events is_module_start (emitted (state_after e d pdf (Suc k))) =
       length (filter known_module (take (Suc k) (modules d)))"
    unfolding s count_start_run_module st ih using k
    by (simp add: take_Suc_conv_app_nth)
  have i: "length (invoked (state_after e d pdf (Suc k))) =
      length (invoked (state_after e d pdf k)) +
        (if known_module ?m \<and> \<not> noop_at e d pdf k then 1 else 0)"
    unfolding s invoked_run_module st by (simp add: noop_at_def)
  have b: "count_events is_module_complete (emitted (state_after e d pdf (Suc k)))
         + count_events is_module_error (emitted (state_after e d pdf (Suc k))) =
       length (invoked (state_after e d pdf (Suc k)))"
    using i ih(2) unfolding s count_done_run_module st by simp
  have n: "noop_at e d pdf k \<Longrightarrow> known_module ?m"
    by (simp add: noop_at_def known_module_def)
  have c: "count_events is_module_start (emitted (state_after e d pdf (Suc k))) =
       length (invoked (state_after e d pdf (Suc k)))
         + length (filter (noop_at e d pdf) [0..<Suc k])"
    using i ih(3) n unfolding s count_start_run_module st by auto
  from a b c show ?case
    by simp
qed

text \<open>
  C2. In every run of a readable file, the number of module-start events is the number
  of requested modules with a known name; the number of module-complete events plus the
  number of module-error events is the number of extractor calls; and the start events
  exceed the complete and error events by the number of harmonizer modules entered while
  \<^verbatim>\<open>result.outcomes\<close> was not truthy.
\<close>

theorem module_event_counts:
  assumes "existsSync e (filename d)" and "readFileSync e (filename d) = Inr pdf"
  shows "count_events is_module_start (emitted (startExtraction e d)) =
       length (filter known_module (modules d))
     \<and> count_events is_module_complete (emitted (startExtraction e d))
         + count_events is_module_error (emitted (startExtraction e d)) =
       length (invoked (startExtraction e d))
     \<and> count_events is_module_start (emitted (startExtraction e d)) =
       count_events is_module_complete (emitted (startExtraction e d))
         + count_events is_module_error (emitted (startExtraction e d))
         + harmonizer_noops e d pdf"
proof -
  let ?st = "state_after e d pdf (length (modules d))"
  have f: "count_events is_module_start (emitted (startExtraction e d)) =
        count_events is_module_start (emitted ?st)"
      "count_events is_module_complete (emitted (startExtraction e d)) =
        count_events is_module_complete (emitted ?st)"
      "count_events is_module_error (emitted (startExtraction e d)) =
        count_events is_module_error (emitted ?st)"
      "invoked (startExtraction e d) = invoked ?st"
    using assms by (simp_all add: startExtraction_loaded finish_def emit_def count_events_def)
  have n: "harmonizer_noops e d pdf =
      length (filter (noop_at e d pdf) [0..<length (modules d)])"
    by (simp add: harmonizer_noops_def)
  show ?thesis
    unfolding f n using counts_state_after [of "length (modules d)" d e pdf] by simp
qed

theorem module_event_counts_witness:
  "count_events is_module_start (emitted (startExtraction sample_env mixed_request)) = 4
   \<and> length (filter known_module (modules mixed_request)) = 4
   \<and> count_events is_module_complete (emitted (startExtraction sample_env mixed_request)) = 2
   \<and> count_events is_module_error (emitted (startExtraction sample_env mixed_request)) = 1
   \<and> length (invoked (startExtraction sample_env mixed_request)) = 3
   \<and> harmonizer_noops sample_env mixed_request ''JVBERi0='' = 1"
proof -
  have c: "count_events is_module_start (emitted (startExtraction sample_env mixed_request)) = 4"
    "count_events is_module_complete (emitted (startExtraction sample_env mixed_request)) = 2"
    "count_events is_module_error (emitted (startExtraction sample_env mixed_request)) = 1"
    by (simp_all add: mixed_request_events count_events_def)
  from module_event_counts [OF mixed_request_loaded, unfolded c] c show ?thesis
    by simp
qed

text \<open>
  The count of start events need not equal the count of complete and error events: a
  request for the harmonizer alone gets one start event and neither of the others.
\<close>

theorem module_start_without_outcome_counterexample:
  "emitted (startExtraction sample_env lone_harmonizer_request) =
       [Progress ''reading'' ''Reading PDF file...'' 5,
        Progress ''harmonizer'' ''Running harmonizer extractor...'' 10,
        ModuleStart ''harmonizer'' ''Outcome Harmonizer'',
        Progress ''complete'' ''Extraction complete!'' 100,
        ExtractionComplete True [] [''harmonizer''] ''2025-01-01T00:00:00.000Z'']
   \<and> count_events is_module_start (emitted (startExtraction sample_env lone_harmonizer_request)) = 1
   \<and> count_events is_module_complete (emitted (startExtraction sample_env lone_harmonizer_request))
       + count_events is_module_error (emitted (startExtraction sample_env lone_harmonizer_request))
       = 0"
  by (simp add: run_eval sample_env_def lone_harmonizer_request_def get_field_def
      count_events_def)

subsection \<open>A module whose extractor throws\<close>



subsection \<open>A file that does not exist\<close>

text \<open>
  C4. When the file of the request does not exist, the run emits exactly one event,
  the fatal error; it emits no progress event and no module event, it does not end with
  the completion event, and it calls no extractor.
\<close>

theorem missing_file_single_error:
  assumes "\<not> existsSync e (filename d)"
  shows "emitted (startExtraction e d) = [ErrorEvent ''File not found'']
       \<and> count_events is_error_event (emitted (startExtraction e d)) = 1
       \<and> count_events is_progress (emitted (startExtraction e d)) = 0
       \<and> count_events is_module_start (emitted (startExtraction e d)) = 0
       \<and> count_events is_module_complete (emitted (startExtraction e d)) = 0
       \<and> count_events is_module_error (emitted (startExtraction e d)) = 0
       \<and> count_events is_extraction_complete (emitted (startExtraction e d)) = 0
       \<and> invoked (startExtraction e d) = []"
  using assms
  by (simp add: startExtraction_def emit_def initial_state_def count_events_def)

theorem missing_file_single_error_witness:
  "emitted (startExtraction sample_env \<lparr> filename = ''absent.pdf'', modules = [''full-pdf''] \<rparr>)
     = [ErrorEvent ''File not found'']
   \<and> invoked (startExtraction sample_env \<lparr> filename = ''absent.pdf'', modules = [''full-pdf''] \<rparr>) = []"
  using missing_file_single_error
    [of sample_env "\<lparr> filename = ''absent.pdf'', modules = [''full-pdf''] \<rparr>"]
  by (simp add: sample_env_def)

subsection \<open>Progress percentages\<close>















subsection \<open>The harmonizer\<close>

text \<open>
  C6. The harmonizer module calls its extractor exactly when \<^verbatim>\<open>result.outcomes\<close> is
  truthy at that point of the run, which it is not when the property is absent. When it
  is not truthy, the module adds its progress event and its start event and nothing
  else: no call, no change of the result, no complete or error event. When it is truthy
  and the extractor resolves, the module stores the harmonized outcomes in the result
  and adds a module-complete event.
\<close>

theorem harmonizer_needs_truthy_outcomes:
  assumes "existsSync e (filename d)" and "readFileSync e (filename d) = Inr pdf"
    and "k < length (modules d)" and "modules d ! k = ''harmonizer''"
  shows "invoked (state_after e d pdf (Suc k)) =
       invoked (state_after e d pdf k) @
         (if truthy_field (get_field (result (state_after e d pdf k)) ''outcomes'')
          then [HarmonizeOutcomes (get_field (result (state_after e d pdf k)) ''outcomes'')]
          else [])
     \<and> (\<not> has_field (result (state_after e d pdf k)) ''outcomes'' \<longrightarrow>
          \<not> truthy_field (get_field (result (state_after e d pdf k)) ''outcomes''))
     \<and> (\<not> truthy_field (get_field (result (state_after e d pdf k)) ''outcomes'') \<longrightarrow>
          state_after e d pdf (Suc k) =
            (state_after e d pdf k)\<lparr>emitted := emitted (state_after e d pdf k) @
               [Progress ''harmonizer'' (running_message ''harmonizer'') (module_percent d k),
                ModuleStart ''harmonizer'' ''Outcome Harmonizer'']\<rparr>)
     \<and> (\<forall>h. truthy_field (get_field (result (state_after e d pdf k)) ''outcomes'') \<and>
            harmonizeOutcomes e k (get_field (result (state_after e d pdf k)) ''outcomes'') = Inr h
          \<longrightarrow>
            result (state_after e d pdf (Suc k)) =
              set_field ''harmonized_outcomes'' (HarmonizedVal h) (result (state_after e d pdf k))
            \<and> get_field (result (state_after e d pdf (Suc k))) ''harmonized_outcomes''
                = HarmonizedVal h
            \<and> emitted (state_after e d pdf (Suc k)) =
                emitted (state_after e d pdf k) @
                  [Progress ''harmonizer'' (running_message ''harmonizer'') (module_percent d k),
                   ModuleStart ''harmonizer'' ''Outcome Harmonizer'',
                   ModuleComplete ''harmonizer'' (HarmonizedData h)
                     (''Harmonized outcomes to '' @ string_of_nat (length (timepoints h))
                        @ '' timepoints'')])
     \<and> startExtraction e d =
         finish e d (process_modules e pdf (length (modules d)) (Suc k)
                       (drop (Suc k) (modules d)) (state_after e d pdf (Suc k)))"
proof -
  let ?s = "state_after e d pdf k"
  let ?st = "emit (Progress ''harmonizer'' (running_message ''harmonizer'')
                (module_percent d k)) ?s"
  have s: "state_after e d pdf (Suc k) = run_module e k pdf ''harmonizer'' ?st"
    using assms(3,4) state_after_Suc [of k d e pdf] by simp
  have r: "result ?st = result ?s" "invoked ?st = invoked ?s"
    by (simp_all add: emit_def)
  have c1: "invoked (state_after e d pdf (Suc k)) =
       invoked ?s @
         (if truthy_field (get_field (result ?s) ''outcomes'')
          then [HarmonizeOutcomes (get_field (result ?s) ''outcomes'')] else [])"
    unfolding s by (simp add: run_module_harmonizer r split: sum.splits)
  have c3: "state_after e d pdf (Suc k) =
       ?s\<lparr>emitted := emitted ?s @
          [Progress ''harmonizer'' (running_message ''harmonizer'') (module_percent d k),
           ModuleStart ''harmonizer'' ''Outcome Harmonizer'']\<rparr>"
    if "\<not> truthy_field (get_field (result ?s) ''outcomes'')"
    unfolding s using that by (simp add: run_module_harmonizer r) (simp add: emit_def)
  have c4: "result (state_after e d pdf (Suc k)) =
         set_field ''harmonized_outcomes'' (HarmonizedVal h) (result ?s)
       \<and> get_field (result (state_after e d pdf (Suc k))) ''harmonized_outcomes''
           = HarmonizedVal h
       \<and> emitted (state_after e d pdf (Suc k)) =
           emitted ?s @
             [Progress ''harmonizer'' (running_message ''harmonizer'') (module_percent d k),
              ModuleStart ''harmonizer'' ''Outcome Harmonizer'',
              ModuleComplete ''harmonizer'' (HarmonizedData h)
                (''Harmonized outcomes to '' @ string_of_nat (length (timepoints h))
                   @ '' timepoints'')]"
    if "truthy_field (get_field (result ?s) ''outcomes'')"
      and "harmonizeOutcomes e k (get_field (result ?s) ''outcomes'') = Inr h" for h
    unfolding s using that
    by (simp add: run_module_harmonizer r get_field_set_field) (simp add: emit_def)
  have c5: "startExtraction e d =
         finish e d (process_modules e pdf (length (modules d)) (Suc k)
                       (drop (Suc k) (modules d)) (state_after e d pdf (Suc k)))"
    using assms(3) by (intro run_continues [OF assms(1,2)]) simp
  from c1 c3 c4 c5 absent_not_truthy show ?thesis
    by blast
qed

theorem harmonizer_needs_truthy_outcomes_witness:
  "truthy_field (get_field (result (state_after sample_env harmonizer_request ''JVBERi0='' 1))
     ''outcomes'')
   \<and> invoked (state_after sample_env harmonizer_request ''JVBERi0='' 2) =
       [ExtractFullPdf ''JVBERi0='',
        HarmonizeOutcomes (Value (JObj [(''mortality'', JNum (Fin 2))]))]
   \<and> get_field (result (state_after sample_env harmonizer_request ''JVBERi0='' 2))
       ''harmonized_outcomes'' = HarmonizedVal sample_harmonized
   \<and> \<not> has_field (result (state_after sample_env lone_harmonizer_request ''JVBERi0='' 0))
         ''outcomes''
   \<and> state_after sample_env lone_harmonizer_request ''JVBERi0='' 1 =
       \<lparr>emitted =
          [Progress ''reading'' ''Reading PDF file...'' 5,
           Progress ''harmonizer'' ''Running harmonizer extractor...'' 10,
           ModuleStart ''harmonizer'' ''Outcome Harmonizer''],
        result = [], invoked = []\<rparr>"
proof -
  note l = harmonizer_request_loaded
  have h3: "1 < length (modules harmonizer_request)"
    and h4: "modules harmonizer_request ! 1 = ''harmonizer''"
    by (simp_all add: l)
  have g: "get_field (result (state_after sample_env harmonizer_request ''JVBERi0='' 1))
      ''outcomes'' = Value (JObj [(''mortality'', JNum (Fin 2))])"
    and i: "invoked (state_after sample_env harmonizer_request ''JVBERi0='' 1) =
      [ExtractFullPdf ''JVBERi0='']"
    by (simp_all add: harmonizer_request_state_1 get_field_def)
  have c: "harmonizeOutcomes sample_env 1 (Value (JObj [(''mortality'', JNum (Fin 2))])) =
      Inr sample_harmonized"
    by (simp add: sample_env_def)
  note th = harmonizer_needs_truthy_outcomes [OF l(1,2) h3 h4, unfolded g i Suc_1]
  from th c have first:
    "truthy_field (get_field (result (state_after sample_env harmonizer_request ''JVBERi0='' 1))
       ''outcomes'')
     \<and> invoked (state_after sample_env harmonizer_request ''JVBERi0='' 2) =
         [ExtractFullPdf ''JVBERi0='',
          HarmonizeOutcomes (Value (JObj [(''mortality'', JNum (Fin 2))]))]
     \<and> get_field (result (state_after sample_env harmonizer_request ''JVBERi0='' 2))
         ''harmonized_outcomes'' = HarmonizedVal sample_harmonized"
    unfolding g by (simp add: get_field_set_field)
  note l' = lone_harmonizer_request_loaded
  have h3': "0 < length (modules lone_harmonizer_request)"
    and h4': "modules lone_harmonizer_request ! 0 = ''harmonizer''"
    by (simp_all add: l')
  have s0: "state_after sample_env lone_harmonizer_request ''JVBERi0='' 0 =
      \<lparr>emitted = [Progress ''reading'' ''Reading PDF file...'' 5], result = [], invoked = []\<rparr>"
    by (simp add: state_after_0 reading_state_def emit_def initial_state_def)
  have a: "\<not> has_field
      (result (state_after sample_env lone_harmonizer_request ''JVBERi0='' 0)) ''outcomes''"
    by (simp add: s0 has_field_def)
  have p: "module_percent lone_harmonizer_request 0 = 10"
    and r: "running_message ''harmonizer'' = ''Running harmonizer extractor...''"
    by (simp_all add: module_percent_def running_message_def)
  note th' = harmonizer_needs_truthy_outcomes [OF l'(1,2) h3' h4']
  from th' a have "state_after sample_env lone_harmonizer_request ''JVBERi0='' (Suc 0) =
      (state_after sample_env lone_harmonizer_request ''JVBERi0='' 0)
        \<lparr>emitted := emitted (state_after sample_env lone_harmonizer_request ''JVBERi0='' 0) @
           [Progress ''harmonizer'' (running_message ''harmonizer'')
              (module_percent lone_harmonizer_request 0),
            ModuleStart ''harmonizer'' ''Outcome Harmonizer'']\<rparr>"
    by blast
  then have second: "state_after sample_env lone_harmonizer_request ''JVBERi0='' 1 =
       \<lparr>emitted =
          [Progress ''reading'' ''Reading PDF file...'' 5,
           Progress ''harmonizer'' ''Running harmonizer extractor...'' 10,
           ModuleStart ''harmonizer'' ''Outcome Harmonizer''],
        result = [], invoked = []\<rparr>"
    by (simp add: s0 p r)
  from first a second show ?thesis
    by blast
qed

text \<open>
  Presence of the property is not enough: when the full-text extractor reports
  \<^verbatim>\<open>outcomes: null\<close>, the property is present when the harmonizer is entered, and the
  harmonizer is not called.
\<close>

theorem harmonizer_null_outcomes_counterexample:
  "has_field (result (state_after null_outcomes_env harmonizer_request ''JVBERi0='' 1)) ''outcomes''
   \<and> emitted (startExtraction null_outcomes_env harmonizer_request) =
       [Progress ''reading'' ''Reading PDF file...'' 5,
        Progress ''full-pdf'' ''Running full-pdf extractor...'' 10,
        ModuleStart ''full-pdf'' ''Full-PDF Extractor'',
        ModuleComplete ''full-pdf'' (FullPdfData [(''outcomes'', JNull)])
          ''Extracted study metadata, methods, results, and discussion'',
        Progress ''harmonizer'' ''Running harmonizer extractor...'' 50,
        ModuleStart ''harmonizer'' ''Outcome Harmonizer'',
        Progress ''complete'' ''Extraction complete!'' 100,
        ExtractionComplete True [(''outcomes'', Value JNull)] [''full-pdf'', ''harmonizer'']
          ''2025-01-01T00:00:00.000Z'']
   \<and> invoked (startExtraction null_outcomes_env harmonizer_request) =
       [ExtractFullPdf ''JVBERi0='']
   \<and> \<not> has_field (result (startExtraction null_outcomes_env harmonizer_request))
         ''harmonized_outcomes''"
  by (simp add: startExtraction_def finish_def state_eval null_outcomes_env_def sample_env_def harmonizer_request_def
      object_assign_def has_field_def get_field_def)

subsection \<open>An unknown module name\<close>

text \<open>
  C7. For a requested module whose name the switch has no case for, the run emits the
  progress event that names it and nothing else: no module event, no extractor call, no
  change of the result. The run goes on with the modules after it and ends with the
  completion event.
\<close>

theorem unknown_module_progress_only:
  assumes "existsSync e (filename d)" and "readFileSync e (filename d) = Inr pdf"
    and "k < length (modules d)" and "\<not> known_module (modules d ! k)"
  shows "state_after e d pdf (Suc k) =
       (state_after e d pdf k)\<lparr>emitted := emitted (state_after e d pdf k) @
          [Progress (modules d ! k) (running_message (modules d ! k)) (module_percent d k)]\<rparr>
     \<and> startExtraction e d =
         finish e d (process_modules e pdf (length (modules d)) (Suc k)
                       (drop (Suc k) (modules d)) (state_after e d pdf (Suc k)))
     \<and> last (emitted (startExtraction e d)) =
         ExtractionComplete True (result (startExtraction e d)) (modules d) (now_iso e)"
proof -
  have "state_after e d pdf (Suc k) =
       (state_after e d pdf k)\<lparr>emitted := emitted (state_after e d pdf k) @
          [Progress (modules d ! k) (running_message (modules d ! k)) (module_percent d k)]\<rparr>"
    using assms(3,4) by (simp add: state_after_Suc run_module_unknown emit_def)
  moreover have "Suc k \<le> length (modules d)"
    using assms(3) by simp
  ultimately show ?thesis
    using run_continues [OF assms(1,2)] run_ends [OF assms(1,2)] by simp
qed

theorem unknown_module_progress_only_witness:
  "\<not> known_module (modules sample_request ! 1)
   \<and> state_after sample_env sample_request ''JVBERi0='' 2 =
       (state_after sample_env sample_request ''JVBERi0='' 1)
         \<lparr>emitted := emitted (state_after sample_env sample_request ''JVBERi0='' 1) @
            [Progress ''bogus'' ''Running bogus extractor...'' (110 / 3)]\<rparr>
   \<and> last (emitted (startExtraction sample_env sample_request)) =
       ExtractionComplete True (result (startExtraction sample_env sample_request))
         [''tables'', ''bogus'', ''citations''] ''2025-01-01T00:00:00.000Z''"
proof -
  note l = sample_request_loaded
  have m: "modules sample_request ! 1 = ''bogus''"
    by (simp add: l)
  have h3: "1 < length (modules sample_request)"
    and h4: "\<not> known_module (modules sample_request ! 1)"
    by (simp_all add: l known_module_def)
  have p: "module_percent sample_request 1 = 110 / 3"
    and r: "running_message ''bogus'' = ''Running bogus extractor...''"
    by (simp_all add: module_percent_def running_message_def l)
  note th = unknown_module_progress_only [OF l(1,2) h3 h4, unfolded m, unfolded p r Suc_1 l(3,4)]
  from h4 th show ?thesis
    by blast
qed

text \<open>
  The unknown module is not passed over without any event: the run of a request for the
  single module \<^verbatim>\<open>bogus\<close> emits a progress event for it.
\<close>

theorem unknown_module_event_counterexample:
  "\<not> known_module ''bogus''
   \<and> emitted (startExtraction sample_env bogus_request) =
       [Progress ''reading'' ''Reading PDF file...'' 5,
        Progress ''bogus'' ''Running bogus extractor...'' 10,
        Progress ''complete'' ''Extraction complete!'' 100,
        ExtractionComplete True [] [''bogus''] ''2025-01-01T00:00:00.000Z'']"
  by (simp add: run_eval sample_env_def bogus_request_def)

subsection \<open>The citation extractor\<close>

text \<open>
  C8. When the citation extractor resolves to the citations \<open>cs\<close>, the result has
  \<^verbatim>\<open>citations\<close> set to \<open>cs\<close>, and \<^verbatim>\<open>citations_metadata\<close> set to an object whose
  \<^verbatim>\<open>total_extracted\<close> is the number of citations, whose \<^verbatim>\<open>valid_citations\<close> is the
  number of citations with a quality score above 0.7, and whose \<^verbatim>\<open>duplicates_removed\<close>
  is 0.
\<close>

theorem citations_metadata_counts:
  assumes "existsSync e (filename d)" and "readFileSync e (filename d) = Inr pdf"
    and "k < length (modules d)" and "modules d ! k = ''citations''"
    and "extractCitations e k pdf = Inr cs"
  shows "get_field (result (state_after e d pdf (Suc k))) ''citations'' = CitationsVal cs
     \<and> (\<exists>md. get_field (result (state_after e d pdf (Suc k))) ''citations_metadata''
                = MetadataVal md
             \<and> total_extracted md = length cs
             \<and> valid_citations md = card {i. i < length cs \<and> quality_score (cs ! i) > 7 / 10}
             \<and> duplicates_removed md = 0)
     \<and> startExtraction e d =
         finish e d (process_modules e pdf (length (modules d)) (Suc k)
                       (drop (Suc k) (modules d)) (state_after e d pdf (Suc k)))"
proof -
  have "valid_citations (citations_metadata_of cs) =
      card {i. i < length cs \<and> quality_score (cs ! i) > 7 / 10}"
    by (simp add: citations_metadata_of_def length_filter_conv_card)
  moreover have "total_extracted (citations_metadata_of cs) = length cs"
    and "duplicates_removed (citations_metadata_of cs) = 0"
    by (simp_all add: citations_metadata_of_def)
  moreover have "startExtraction e d =
         finish e d (process_modules e pdf (length (modules d)) (Suc k)
                       (drop (Suc k) (modules d)) (state_after e d pdf (Suc k)))"
    using assms(3) by (intro run_continues [OF assms(1,2)]) simp
  ultimately show ?thesis
    by (simp add: citations_step [OF assms(3,4,5)] get_field_set_field)
qed

theorem citations_metadata_counts_witness:
  "extractCitations sample_env 2 ''JVBERi0='' = Inr sample_citations
   \<and> get_field (result (state_after sample_env sample_request ''JVBERi0='' 3)) ''citations''
       = CitationsVal sample_citations
   \<and> get_field (result (state_after sample_env sample_request ''JVBERi0='' 3))
         ''citations_metadata''
       = MetadataVal \<lparr> total_extracted = 6, valid_citations = 3,
                       average_quality = Fin (7 / 10), duplicates_removed = 0 \<rparr>
   \<and> card {i. i < length sample_citations \<and> quality_score (sample_citations ! i) > 7 / 10} = 3"
proof -
  note l = sample_request_loaded and c = sample_citations_call
  have s: "Suc 2 = 3"
    by simp
  note th = citations_metadata_counts [OF l(1,2) c, unfolded s]
  then obtain md where md:
    "get_field (result (state_after sample_env sample_request ''JVBERi0='' 3))
       ''citations_metadata'' = MetadataVal md"
    "valid_citations md =
       card {i. i < length sample_citations \<and> quality_score (sample_citations ! i) > 7 / 10}"
    by blast
  have e: "get_field (result (state_after sample_env sample_request ''JVBERi0='' 3))
       ''citations_metadata'' = MetadataVal (citations_metadata_of sample_citations)"
    using citations_step [OF c] by (simp add: get_field_set_field)
  have "md = citations_metadata_of sample_citations"
    using md(1) e by simp
  then have "valid_citations md = 3"
    by (simp add: sample_citations_metadata)
  with md(2) e th c(3) show ?thesis
    by (simp add: sample_citations_metadata)
qed

text \<open>
  C10. When the citation extractor resolves to the citations \<open>cs\<close>, the module-complete
  event carries the number of citations and the first five of them (all of them when
  there are fewer), the result keeps them all, and with more than five citations the
  list in the event is a strict prefix of the list in the result.
\<close>

theorem citations_event_truncated:
  assumes "existsSync e (filename d)" and "readFileSync e (filename d) = Inr pdf"
    and "k < length (modules d)" and "modules d ! k = ''citations''"
    and "extractCitations e k pdf = Inr cs"
  shows "emitted (state_after e d pdf (Suc k)) =
       emitted (state_after e d pdf k) @
         [Progress ''citations'' (running_message ''citations'') (module_percent d k),
          ModuleStart ''citations'' ''Citation Extractor'',
          ModuleComplete ''citations'' (CitationsData (length cs) (take 5 cs))
            (''Extracted '' @ string_of_nat (length cs) @ '' citations (92.1% accuracy)'')]
     \<and> length (take 5 cs) = min (length cs) 5
     \<and> prefix (take 5 cs) cs
     \<and> get_field (result (state_after e d pdf (Suc k))) ''citations'' = CitationsVal cs
     \<and> (5 < length cs \<longrightarrow> strict_prefix (take 5 cs) cs)
     \<and> startExtraction e d =
         finish e d (process_modules e pdf (length (modules d)) (Suc k)
                       (drop (Suc k) (modules d)) (state_after e d pdf (Suc k)))"
proof -
  have "prefix (take 5 cs) cs"
    by (simp add: take_is_prefix)
  moreover have "strict_prefix (take 5 cs) cs" if "5 < length cs"
  proof -
    have "length (take 5 cs) = 5"
      using that by simp
    then have "take 5 cs \<noteq> cs"
      using that by auto
    then show ?thesis
      by (simp add: strict_prefix_def take_is_prefix)
  qed
  moreover have "startExtraction e d =
         finish e d (process_modules e pdf (length (modules d)) (Suc k)
                       (drop (Suc k) (modules d)) (state_after e d pdf (Suc k)))"
    using assms(3) by (intro run_continues [OF assms(1,2)]) simp
  moreover have "emitted (state_after e d pdf (Suc k)) =
       emitted (state_after e d pdf k) @
         [Progress ''citations'' (running_message ''citations'') (module_percent d k),
          ModuleStart ''citations'' ''Citation Extractor'',
          ModuleComplete ''citations'' (CitationsData (length cs) (take 5 cs))
            (''Extracted '' @ string_of_nat (length cs) @ '' citations (92.1% accuracy)'')]"
    by (simp add: citations_step [OF assms(3,4,5)])
  moreover have "get_field (result (state_after e d pdf (Suc k))) ''citations'' = CitationsVal cs"
    by (simp add: citations_step [OF assms(3,4,5)] get_field_set_field)
  moreover have "length (take 5 cs) = min (length cs) 5"
    by simp
  ultimately show ?thesis
    by blast
qed

theorem citations_event_truncated_witness:
  "emitted (state_after sample_env sample_request ''JVBERi0='' 3) =
       emitted (state_after sample_env sample_request ''JVBERi0='' 2) @
         [Progress ''citations'' ''Running citations extractor...'' (190 / 3),
          ModuleStart ''citations'' ''Citation Extractor'',
          ModuleComplete ''citations'' (CitationsData 6 (take 5 sample_citations))
            ''Extracted 6 citations (92.1% accuracy)'']
   \<and> length (take 5 sample_citations) = 5
   \<and> strict_prefix (take 5 sample_citations) sample_citations
   \<and> get_field (result (state_after sample_env sample_request ''JVBERi0='' 3)) ''citations''
       = CitationsVal sample_citations"
proof -
  note l = sample_request_loaded and c = sample_citations_call
  have s: "Suc 2 = 3"
    by simp
  have n: "length sample_citations = 6"
    by (simp add: sample_citations_def)
  have p: "module_percent sample_request 2 = 190 / 3"
    and r: "running_message ''citations'' = ''Running citations extractor...''"
    and m: "''Extracted '' @ string_of_nat 6 @ '' citations (92.1% accuracy)'' =
        ''Extracted 6 citations (92.1% accuracy)''"
    by (simp_all add: module_percent_def running_message_def l string_of_nat.simps
        digit_char_def)
  note th = citations_event_truncated [OF l(1,2) c, unfolded s n p r m]
  then show ?thesis
    by simp
qed

subsection \<open>Several runs on one socket\<close>

lemma run_module_frame:
  "run_module e i pdf m st =
     st\<lparr>emitted := emitted st @ emitted (run_module e i pdf m (local_state (result st))),
        result := result (run_module e i pdf m (local_state (result st))),
        invoked := invoked st @ invoked (run_module e i pdf m (local_state (result st)))\<rparr>"
  by (cases m rule: module_cases)
    (simp_all add: run_module_known run_module_unknown local_state_def split: sum.splits)

lemma run_module_begin_end:
  "emitted (run_module e i pdf m (local_state r)) =
     (case module_begin pdf m r of
        (evs, None) \<Rightarrow> evs
      | (evs, Some c) \<Rightarrow> evs @ fst (module_end e i pdf m r))"
  "result (run_module e i pdf m (local_state r)) =
     (case module_begin pdf m r of
        (evs, None) \<Rightarrow> r
      | (evs, Some c) \<Rightarrow> snd (module_end e i pdf m r))"
  "invoked (run_module e i pdf m (local_state r)) =
     (case module_begin pdf m r of
        (evs, None) \<Rightarrow> []
      | (evs, Some c) \<Rightarrow> [c])"
  by (cases m rule: module_cases;
      simp add: run_module_known run_module_unknown local_state_def module_begin_def
        module_end_def known_module_def split: sum.splits)+

lemma finish_frame:
  "emitted (finish e d st) = emitted st @ emitted (finish e d (local_state (result st)))"
  by (simp add: finish_def emit_def local_state_def)

lemma drive_done: "drive e n (evs, None) = (evs, None)"
  by (cases n) simp_all

lemma drive_prefix:
  "drive e n (pre @ evs, s) = (pre @ fst (drive e n (evs, s)), snd (drive e n (evs, s)))"
proof (induction n arbitrary: evs s)
  case 0
  show ?case by simp
next
  case (Suc n)
  show ?case
  proof (cases s)
    case None
    then show ?thesis by simp
  next
    case (Some x)
    obtain evs' s' where r: "resume e x = (evs', s')"
      by (cases "resume e x")
    show ?thesis
      using Suc.IH [of "evs @ evs'" s'] by (simp add: Some r)
  qed
qed

text \<open>
  Driving a run from module number \<open>k\<close> through its settlements emits what the loop
  of the handler emits from there on.
\<close>

lemma advance_refines:
  assumes "k \<le> length (modules d)" and "length (modules d) - k \<le> fuel"
  shows "emitted (finish e d (process_modules e pdf (length (modules d)) k
                    (drop k (modules d)) st)) =
           emitted st @ fst (drive e fuel (advance e d pdf k (drop k (modules d)) (result st)))
       \<and> snd (drive e fuel (advance e d pdf k (drop k (modules d)) (result st))) = None"
  using assms
proof (induction "length (modules d) - k" arbitrary: k st fuel)
  case 0
  then have "drop k (modules d) = []"
    by simp
  then show ?case
    by (simp add: drive_done finish_frame [of e d st])
next
  case (Suc j)
  let ?n = "length (modules d)"
  let ?m = "modules d ! k"
  let ?rest = "drop (Suc k) (modules d)"
  define p where "p = Progress ?m (''Running '' @ ?m @ '' extractor...'')
                        (10 + (real k / real ?n) * 80)"
  define L where "L = run_module e k pdf ?m (local_state (result st))"
  define st2 where "st2 = run_module e k pdf ?m (emit p st)"
  define me where "me = module_end e k pdf ?m (result st)"
  have k: "k < ?n"
    using Suc.hyps(2) by simp
  then have dr: "drop k (modules d) = ?m # ?rest"
    by (simp add: Cons_nth_drop_Suc)
  have st2: "emitted st2 = emitted st @ p # emitted L" "result st2 = result L"
    unfolding st2_def L_def by (subst run_module_frame, simp add: emit_def)+
  have step: "process_modules e pdf ?n k (drop k (modules d)) st =
      process_modules e pdf ?n (Suc k) ?rest st2"
    by (simp add: dr Let_def p_def st2_def)
  have j: "j = ?n - Suc k" "Suc k \<le> ?n"
    using Suc.hyps(2) k by simp_all
  obtain evs c where mb: "module_begin pdf ?m (result st) = (evs, c)"
    by (cases "module_begin pdf ?m (result st)")
  obtain evs' s where a: "advance e d pdf (Suc k) ?rest (result L) = (evs', s)"
    by (cases "advance e d pdf (Suc k) ?rest (result L)")
  show ?case
  proof (cases c)
    case None
    have L: "emitted L = evs" "result L = result st"
      unfolding L_def by (simp_all add: run_module_begin_end mb None)
    have f: "?n - Suc k \<le> fuel"
      using Suc.prems(2) by simp
    have ih: "emitted (finish e d (process_modules e pdf ?n (Suc k) ?rest st2)) =
          emitted st2 @ fst (drive e fuel (evs', s))"
        "snd (drive e fuel (evs', s)) = None"
      using Suc.hyps(1) [OF j(1) j(2) f, of st2] by (simp_all add: st2(2) a)
    have adv: "advance e d pdf k (drop k (modules d)) (result st) = (p # evs @ evs', s)"
      using a by (simp add: dr mb None p_def L(2))
    have dp: "drive e fuel (p # evs @ evs', s) =
        ((p # evs) @ fst (drive e fuel (evs', s)), snd (drive e fuel (evs', s)))"
      using drive_prefix [of e fuel "p # evs" evs' s] by simp
    show ?thesis
      unfolding step adv dp using ih by (simp add: st2(1) L(1))
  next
    case (Some call)
    have L: "emitted L = evs @ fst me" "result L = snd me"
      unfolding L_def me_def by (simp_all add: run_module_begin_end mb Some)
    obtain f where fuel: "fuel = Suc f"
      using Suc.prems(2) Suc.hyps(2) by (cases fuel) simp_all
    have f: "?n - Suc k \<le> f"
      using Suc.prems(2) fuel by simp
    have ih: "emitted (finish e d (process_modules e pdf ?n (Suc k) ?rest st2)) =
          emitted st2 @ fst (drive e f (evs', s))"
        "snd (drive e f (evs', s)) = None"
      using Suc.hyps(1) [OF j(1) j(2) f, of st2] by (simp_all add: st2(2) a)
    let ?susp = "\<lparr> s_request = d, s_pdf = pdf, s_index = k, s_result = result st \<rparr>"
    have adv: "advance e d pdf k (drop k (modules d)) (result st) = (p # evs, Some ?susp)"
      by (simp add: dr mb Some p_def)
    have res: "resume e ?susp = (fst me @ evs', s)"
      using a by (simp add: resume_def Let_def case_prod_beta L(2) me_def)
    have "drive e fuel (p # evs, Some ?susp) = drive e f ((p # evs @ fst me) @ evs', s)"
      by (simp add: fuel res)
    also have "\<dots> = ((p # evs @ fst me) @ fst (drive e f (evs', s)), snd (drive e f (evs', s)))"
      by (rule drive_prefix)
    finally have dp: "drive e fuel (p # evs, Some ?susp) =
        ((p # evs @ fst me) @ fst (drive e f (evs', s)), snd (drive e f (evs', s)))" .
    show ?thesis
      unfolding step adv dp using ih by (simp add: st2(1) L(1))
  qed
qed

lemma settle_session_of:
  "(on_settle e 0 ^^ n) (session_of ch x) = session_of ch (drive e n x)"
proof (induction n arbitrary: x)
  case 0
  show ?case by simp
next
  case (Suc n)
  obtain evs s where x: "x = (evs, s)"
    by (cases x)
  show ?case
  proof (cases s)
    case None
    have "on_settle e 0 (session_of ch (evs, None)) = session_of ch (evs, None)"
      by (simp add: on_settle_def session_of_def)
    then show ?thesis
      using Suc.IH [of "(evs, None)"] by (simp add: x None drive_done funpow_swap1)
  next
    case (Some y)
    obtain evs' s' where r: "resume e y = (evs', s')"
      by (cases "resume e y")
    have "on_settle e 0 (session_of ch (evs, Some y)) = session_of ch (evs @ evs', s')"
      by (simp add: on_settle_def session_of_def r)
    then show ?thesis
      using Suc.IH [of "(evs @ evs', s')"] by (simp add: x Some r funpow_swap1)
  qed
qed

lemma settle_nothing:
  "in_flight s = [] \<Longrightarrow> (on_settle e 0 ^^ n) s = s"
  by (induction n) (simp_all add: on_settle_def)

text \<open>A single run on a socket emits the events of the handler, and ends.\<close>

theorem solo_run_refines:
  "channel (solo_run e d) = emitted (startExtraction e d) \<and> in_flight (solo_run e d) = []"
proof (cases "existsSync e (filename d)")
  case False
  then have "on_start e d idle = \<lparr>channel = [ErrorEvent ''File not found''], in_flight = []\<rparr>"
    by (simp add: on_start_def idle_def)
  then show ?thesis
    using False
    by (simp add: solo_run_def settle_nothing startExtraction_def emit_def
        initial_state_def)
next
  case True
  show ?thesis
  proof (cases "readFileSync e (filename d)")
    case (Inl err)
    then have "in_flight (on_start e d idle) = []"
      "channel (on_start e d idle) = emitted (startExtraction e d)"
      using True
      by (simp_all add: on_start_def idle_def startExtraction_def emit_def initial_state_def)
    then show ?thesis
      by (simp add: solo_run_def settle_nothing)
  next
    case (Inr pdf)
    let ?n = "length (modules d)"
    let ?x = "advance e d pdf 0 (modules d) []"
    have s: "on_start e d idle =
        session_of [Progress ''reading'' ''Reading PDF file...'' 5] ?x"
      using True Inr by (simp add: on_start_def idle_def session_of_def case_prod_beta)
    have r: "emitted (finish e d (process_modules e pdf ?n 0 (drop 0 (modules d)) reading_state)) =
          emitted reading_state
            @ fst (drive e ?n (advance e d pdf 0 (drop 0 (modules d)) (result reading_state)))
       \<and> snd (drive e ?n (advance e d pdf 0 (drop 0 (modules d)) (result reading_state))) = None"
      by (rule advance_refines) simp_all
    have rs: "emitted reading_state = [Progress ''reading'' ''Reading PDF file...'' 5]"
      "result reading_state = []"
      by (simp_all add: reading_state_def emit_def initial_state_def)
    have "solo_run e d =
        session_of [Progress ''reading'' ''Reading PDF file...'' 5] (drive e ?n ?x)"
      by (simp add: solo_run_def s settle_session_of)
    moreover have "startExtraction e d = finish e d (process_modules e pdf ?n 0 (modules d) reading_state)"
      using True Inr by (simp add: startExtraction_def reading_state_def)
    ultimately show ?thesis
      using r by (simp add: rs session_of_def)
  qed
qed

lemma channel_on_settle: "prefix (channel s) (channel (on_settle e j s))"
  by (simp add: on_settle_def case_prod_beta)

lemma channel_settles: "prefix (channel s) (channel ((on_settle e j ^^ n) s))"
proof (induction n)
  case 0
  show ?case by simp
next
  case (Suc n)
  have "prefix (channel ((on_settle e j ^^ n) s)) (channel ((on_settle e j ^^ Suc n) s))"
    using channel_on_settle [of "(on_settle e j ^^ n) s" e j] by simp
  with Suc show ?case
    using prefix_order.trans by blast
qed

lemmas session_eval =
  session_run_def on_start_def on_settle_def resume_def module_begin_def module_end_def
  local_state_def idle_def Let_def run_module_known run_module_unknown known_module_def
  finish_def emit_def error_message_def

text \<open>
  C9. The handler does not look at the runs that are under way on the socket. A start
  command that arrives while runs wait for their extractors is handled as on an idle
  socket: its first events, which are the beginning of the events of its run, go into
  the channel at once, after the events emitted so far; its run joins the waiting runs;
  and the waiting runs stay as they are. No command is rejected or queued.
\<close>

theorem start_ignores_runs_in_flight:
  "on_start e d s =
     s\<lparr>channel := channel s @ channel (on_start e d idle),
       in_flight := in_flight s @ in_flight (on_start e d idle)\<rparr>
   \<and> prefix (channel (on_start e d idle)) (emitted (startExtraction e d))"
proof -
  have "on_start e d s =
     s\<lparr>channel := channel s @ channel (on_start e d idle),
       in_flight := in_flight s @ in_flight (on_start e d idle)\<rparr>"
    by (simp add: on_start_def idle_def case_prod_beta split: sum.splits)
  moreover have "prefix (channel (on_start e d idle)) (channel (solo_run e d))"
    unfolding solo_run_def by (rule channel_settles)
  ultimately show ?thesis
    by (simp add: solo_run_refines)
qed

text \<open>
  A second start command is not held back while a run is under way: on the sample
  environment, a command for the harmonizer request that arrives while the run of the
  table request waits for its extractor emits its first three events before the first
  run has emitted its last three, and both runs are under way at the same time.
\<close>

theorem second_run_starts_counterexample:
  "in_flight (session_run sample_env [Start tables_request] idle) =
     [\<lparr> s_request = tables_request, s_pdf = ''JVBERi0='', s_index = 0, s_result = [] \<rparr>]
   \<and> session_run sample_env [Start tables_request, Start harmonizer_request, Settled 0] idle =
     \<lparr> channel =
         [Progress ''reading'' ''Reading PDF file...'' 5,
          Progress ''tables'' ''Running tables extractor...'' 10,
          ModuleStart ''tables'' ''Table & Figure Extractor'',
          Progress ''reading'' ''Reading PDF file...'' 5,
          Progress ''full-pdf'' ''Running full-pdf extractor...'' 10,
          ModuleStart ''full-pdf'' ''Full-PDF Extractor'',
          ModuleError ''tables'' ''request timed out'',
          Progress ''complete'' ''Extraction complete!'' 100,
          ExtractionComplete True [] [''tables''] ''2025-01-01T00:00:00.000Z''],
       in_flight =
         [\<lparr> s_request = harmonizer_request, s_pdf = ''JVBERi0='', s_index = 0,
            s_result = [] \<rparr>] \<rparr>"
  by (simp add: session_eval sample_env_def tables_request_def harmonizer_request_def)

end
